theory Spec2Isabelle
  imports Main
begin

text \<open>
  A shallow embedding of the job queue: the job record and its retry computations
  (src/job.js), the file-backed store with its lock (src/storage.js), the enqueue command
  (src/cli.js) and the worker cycle (src/worker.js), followed by the properties of the
  specification that were checked against them.
\<close>

section \<open>Job records (src/job.js)\<close>

text \<open>
  A job is a JavaScript object with nine fields. Timestamps are ISO strings in the source,
  produced by \<^verbatim>\<open>new Date().toISOString()\<close> and compared after \<^verbatim>\<open>new Date(s)\<close>;
  here a timestamp is the number of milliseconds it denotes. Counters are JavaScript
  numbers; here they are natural numbers, as the data model of the specification has them.
  The state is a string, as in the source. A field that can be \<^verbatim>\<open>null\<close> or
  \<^verbatim>\<open>undefined\<close> is an option.
\<close>

record job =
  job_id :: string
  command :: "string option"
  state :: string
  attempts :: nat
  max_retries :: nat
  created_at :: int
  updated_at :: int
  error :: "string option"
  next_retry_at :: "int option"

text \<open>
  The argument of the constructor: parsed JSON in which every field may be missing.
\<close>

record job_data =
  d_id :: "string option"
  d_command :: "string option"
  d_state :: "string option"
  d_attempts :: "nat option"
  d_max_retries :: "nat option"
  d_created_at :: "int option"
  d_updated_at :: "int option"
  d_error :: "string option"
  d_next_retry_at :: "int option"

text \<open>
  \<^verbatim>\<open>x || d\<close>: the default \<open>d\<close> replaces every falsy value of \<open>x\<close>, which for a
  string is \<^verbatim>\<open>undefined\<close> and the empty string, and for a number is
  \<^verbatim>\<open>undefined\<close> and zero.
\<close>

definition or_string :: "string option \<Rightarrow> string \<Rightarrow> string" where
  "or_string x d = (case x of None \<Rightarrow> d | Some s \<Rightarrow> if s = [] then d else s)"

definition or_number :: "nat option \<Rightarrow> nat \<Rightarrow> nat" where
  "or_number x d = (case x of None \<Rightarrow> d | Some n \<Rightarrow> if n = 0 then d else n)"

definition or_time :: "int option \<Rightarrow> int \<Rightarrow> int" where
  "or_time x d = (case x of None \<Rightarrow> d | Some t \<Rightarrow> t)"

definition or_null :: "string option \<Rightarrow> string option" where
  "or_null x = (case x of None \<Rightarrow> None | Some s \<Rightarrow> if s = [] then None else Some s)"

text \<open>
  \<^verbatim>\<open>constructor(data)\<close>. The clock reading \<open>now\<close> and the identifier \<open>gen\<close> that
  \<^verbatim>\<open>generateId()\<close> would return are arguments.
\<close>

definition Job_new :: "int \<Rightarrow> string \<Rightarrow> job_data \<Rightarrow> job" where
  "Job_new now gen d =
     \<lparr> job_id = or_string (d_id d) gen,
       command = d_command d,
       state = or_string (d_state d) ''pending'',
       attempts = or_number (d_attempts d) 0,
       max_retries = or_number (d_max_retries d) 3,
       created_at = or_time (d_created_at d) now,
       updated_at = or_time (d_updated_at d) now,
       error = or_null (d_error d),
       next_retry_at = d_next_retry_at d \<rparr>"

text \<open>\<^verbatim>\<open>toJSON()\<close> copies the nine fields; the copy read back as constructor input:\<close>

definition toJSON :: "job \<Rightarrow> job_data" where
  "toJSON j =
     \<lparr> d_id = Some (job_id j),
       d_command = command j,
       d_state = Some (state j),
       d_attempts = Some (attempts j),
       d_max_retries = Some (max_retries j),
       d_created_at = Some (created_at j),
       d_updated_at = Some (updated_at j),
       d_error = error j,
       d_next_retry_at = next_retry_at j \<rparr>"

definition fromJSON :: "int \<Rightarrow> string \<Rightarrow> job \<Rightarrow> job" where
  "fromJSON now gen j = Job_new now gen (toJSON j)"

definition canRetry :: "job \<Rightarrow> bool" where
  "canRetry j = (attempts j < max_retries j \<and> state j = ''failed'')"

definition shouldRetryNow :: "int \<Rightarrow> job \<Rightarrow> bool" where
  "shouldRetryNow now j =
     (case next_retry_at j of None \<Rightarrow> True | Some t \<Rightarrow> t \<le> now)"

text \<open>
  What the program reports or throws: the enqueue command's complaint about a missing
  command, and the \<^verbatim>\<open>RangeError\<close> of \<^verbatim>\<open>toISOString()\<close> on an invalid date.
\<close>

datatype failure = ValidationError | RangeError

text \<open>
  The configured \<^verbatim>\<open>backoffBase\<close> is a JavaScript value handed to \<^verbatim>\<open>Math.pow\<close>. It
  is modelled where it is a whole number, and where \<^verbatim>\<open>Math.pow\<close> turns it into
  \<^verbatim>\<open>NaN\<close> (a string that is no numeral, which \<^verbatim>\<open>config set\<close> stores as it is); a
  base with a fractional part is outside the model. \<^verbatim>\<open>Math.pow\<close> of a whole base and a
  natural exponent is taken at its exact value. The double the source computes is that
  value while its magnitude is below \<open>2\<^sup>5\<^sup>3\<close>; beyond that, the double (rounded or
  infinite) and the exact value alike lie past every valid date, which is all that
  \<^verbatim>\<open>calculateNextRetry\<close> makes of them. \<^verbatim>\<open>Math.pow(NaN, 0)\<close> is 1.
\<close>

datatype number = Whole int | NotANumber

definition Math_pow :: "number \<Rightarrow> nat \<Rightarrow> number" where
  "Math_pow base n =
     (case base of
        Whole b \<Rightarrow> Whole (b ^ n)
      | NotANumber \<Rightarrow> if n = 0 then Whole 1 else NotANumber)"

text \<open>
  A \<^verbatim>\<open>Date\<close> is valid when its time value is at most \<open>8.64 \<times> 10\<^sup>1\<^sup>5\<close> milliseconds
  from the epoch, either way.
\<close>

definition valid_time :: "int \<Rightarrow> bool" where
  "valid_time t = (\<bar>t\<bar> \<le> 8640000000000000)"

text \<open>
  \<^verbatim>\<open>calculateNextRetry(base)\<close>: the local constant \<^verbatim>\<open>delay\<close>, in seconds, and the
  instant \<open>delay\<close> seconds after the clock reading, which \<^verbatim>\<open>toISOString()\<close> returns
  when the date is valid and refuses with a \<^verbatim>\<open>RangeError\<close> when it is not (the delay
  is \<^verbatim>\<open>NaN\<close>, or the instant lies past the last valid date). \<^verbatim>\<open>setSeconds\<close> works
  on local time: the process is taken to run in a time zone of fixed offset, so that the
  seconds added are seconds elapsed, and with a clock between 1970 and the year 10000, so
  that the doubles on the way stay below \<open>2\<^sup>5\<^sup>3\<close>.
\<close>

definition delay :: "number \<Rightarrow> job \<Rightarrow> number" where
  "delay base j = Math_pow base (attempts j)"

definition calculateNextRetry :: "number \<Rightarrow> int \<Rightarrow> job \<Rightarrow> failure + int" where
  "calculateNextRetry base now j =
     (case delay base j of
        NotANumber \<Rightarrow> Inl RangeError
      | Whole d \<Rightarrow>
          if valid_time now \<and> valid_time (now + 1000 * d)
          then Inr (now + 1000 * d)
          else Inl RangeError)"

section \<open>Keyed tables (the two \<^verbatim>\<open>Map\<close>s and the two JSON files)\<close>

text \<open>
  A JavaScript \<^verbatim>\<open>Map\<close> iterates in insertion order, and the worker depends on that
  order, so a table is a list of entries. \<^verbatim>\<open>set\<close> on a key that is present keeps the
  entry's position; on a new key it appends.
\<close>

type_synonym table = "(string \<times> job) list"

definition keys :: "table \<Rightarrow> string list" where
  "keys t = map fst t"

definition map_get :: "table \<Rightarrow> string \<Rightarrow> job option" where
  "map_get t k = map_of t k"

definition map_has :: "table \<Rightarrow> string \<Rightarrow> bool" where
  "map_has t k = (k \<in> set (keys t))"

definition map_set :: "string \<Rightarrow> job \<Rightarrow> table \<Rightarrow> table" where
  "map_set k v t =
     (if map_has t k then map (\<lambda>p. if fst p = k then (k, v) else p) t else t @ [(k, v)])"

definition map_delete :: "string \<Rightarrow> table \<Rightarrow> table" where
  "map_delete k t = filter (\<lambda>p. fst p \<noteq> k) t"

definition map_values :: "table \<Rightarrow> job list" where
  "map_values t = map snd t"

text \<open>
  \<^verbatim>\<open>save\<close> writes \<^verbatim>\<open>JSON.stringify(Object.fromEntries(map))\<close> and \<^verbatim>\<open>load\<close>
  reads \<^verbatim>\<open>new Map(Object.entries(JSON.parse(text)))\<close>. The keys of a JavaScript
  object are enumerated with the array indices first, in ascending numeric order, and the
  other strings after them in insertion order. An array index is a canonical decimal
  numeral not above \<open>2\<^sup>3\<^sup>2 - 2\<close>.
\<close>

definition is_digit :: "char \<Rightarrow> bool" where
  "is_digit c = (48 \<le> (of_char c :: nat) \<and> (of_char c :: nat) \<le> 57)"

definition index_value :: "string \<Rightarrow> nat" where
  "index_value s = foldl (\<lambda>n c. 10 * n + (of_char c - 48)) 0 s"

definition is_array_index :: "string \<Rightarrow> bool" where
  "is_array_index s =
     (s \<noteq> [] \<and> list_all is_digit s \<and> (s = ''0'' \<or> take 1 s \<noteq> ''0'')
      \<and> index_value s \<le> 4294967294)"

definition object_entries :: "table \<Rightarrow> table" where
  "object_entries t =
     sort_key (index_value \<circ> fst) (filter (is_array_index \<circ> fst) t)
     @ filter (\<lambda>p. \<not> is_array_index (fst p)) t"

section \<open>The store (src/storage.js)\<close>

text \<open>
  What lives outside the process: the two table files and the lock file, each absent or
  holding a value, and the set of process identifiers for which
  \<^verbatim>\<open>process.kill(pid, 0)\<close> succeeds. File-system calls are taken to succeed and the
  files to hold what this program wrote, so \<^verbatim>\<open>save\<close> does not throw and
  \<^verbatim>\<open>load\<close> does not reach its handler.
\<close>

record files =
  jobs_file :: "table option"
  dlq_file :: "table option"
  lock_file :: "nat option"
  alive :: "nat set"

text \<open>
  A \<^verbatim>\<open>Storage\<close> instance: the two cached maps, the lock handle, the identifier of the
  process that owns the instance, and the files it works on.
\<close>

record storage =
  jobs :: table
  dlq :: table
  lockHandle :: bool
  pid :: nat
  disk :: files

definition load :: "storage \<Rightarrow> storage" where
  "load st =
     st\<lparr> jobs := (case jobs_file (disk st) of None \<Rightarrow> jobs st | Some t \<Rightarrow> object_entries t),
         dlq := (case dlq_file (disk st) of None \<Rightarrow> dlq st | Some t \<Rightarrow> object_entries t) \<rparr>"

definition save :: "storage \<Rightarrow> storage" where
  "save st =
     st\<lparr> disk := (disk st)\<lparr> jobs_file := Some (object_entries (jobs st)),
                              dlq_file := Some (object_entries (dlq st)) \<rparr> \<rparr>"

definition acquireLock :: "storage \<Rightarrow> bool \<times> storage" where
  "acquireLock st =
     (if lockHandle st then (True, st)
      else let taken = st\<lparr> lockHandle := True,
                            disk := (disk st)\<lparr> lock_file := Some (pid st) \<rparr> \<rparr>
           in case lock_file (disk st) of
                None \<Rightarrow> (True, taken)
              | Some p \<Rightarrow> if p \<in> alive (disk st) then (False, st) else (True, taken))"

definition releaseLock :: "storage \<Rightarrow> storage" where
  "releaseLock st =
     (if lockHandle st \<and> lock_file (disk st) \<noteq> None
      then st\<lparr> lockHandle := False, disk := (disk st)\<lparr> lock_file := None \<rparr> \<rparr>
      else st)"

definition addJob :: "job \<Rightarrow> storage \<Rightarrow> storage" where
  "addJob j st = save (st\<lparr> jobs := map_set (job_id j) j (jobs st) \<rparr>)"

definition getJob :: "string \<Rightarrow> storage \<Rightarrow> job option" where
  "getJob k st = map_get (jobs st) k"

definition updateJob :: "job \<Rightarrow> storage \<Rightarrow> bool \<times> storage" where
  "updateJob j st =
     (let st1 = load st
      in if map_has (jobs st1) (job_id j)
         then (True, save (st1\<lparr> jobs := map_set (job_id j) j (jobs st1) \<rparr>))
         else (False, st1))"

definition deleteJob :: "string \<Rightarrow> storage \<Rightarrow> bool \<times> storage" where
  "deleteJob k st =
     (if map_has (jobs st) k
      then (True, save (st\<lparr> jobs := map_delete k (jobs st) \<rparr>))
      else (False, st))"

definition getJobsByState :: "string \<Rightarrow> storage \<Rightarrow> job list" where
  "getJobsByState s st = filter (\<lambda>j. state j = s) (map_values (jobs st))"

definition moveToDLQ :: "int \<Rightarrow> job \<Rightarrow> storage \<Rightarrow> storage" where
  "moveToDLQ now j st =
     (let jobData = j\<lparr> state := ''dead'', updated_at := now \<rparr>
      in save (st\<lparr> dlq := map_set (job_id jobData) jobData (dlq st),
                    jobs := map_delete (job_id jobData) (jobs st) \<rparr>))"

definition retryFromDLQ :: "int \<Rightarrow> string \<Rightarrow> storage \<Rightarrow> job option \<times> storage" where
  "retryFromDLQ now jobId st =
     (case map_get (dlq st) jobId of
        None \<Rightarrow> (None, st)
      | Some j0 \<Rightarrow>
          let j = j0\<lparr> state := ''pending'', attempts := 0, updated_at := now \<rparr>
          in (Some j, save (st\<lparr> dlq := map_delete jobId (dlq st),
                                 jobs := map_set (job_id j) j (jobs st) \<rparr>)))"

text \<open>
  Other processes share the files. Their writes are an argument: a list of changes to the
  files, of which the next one lands whenever this process sleeps and just before it
  reloads inside \<^verbatim>\<open>getNextPendingJob\<close>. The empty list is a process running alone.
\<close>

type_synonym others = "(files \<Rightarrow> files) list"

definition yield :: "others \<Rightarrow> storage \<Rightarrow> others \<times> storage" where
  "yield env st =
     (case env of [] \<Rightarrow> ([], st) | e # es \<Rightarrow> (es, st\<lparr> disk := e (disk st) \<rparr>))"

definition sleep :: "others \<Rightarrow> storage \<Rightarrow> others \<times> storage" where
  "sleep env st = yield env st"

text \<open>\<^verbatim>\<open>acquireLockWithRetry(maxRetries, delay)\<close>, the loop counted down.\<close>

fun acquireLockWithRetry :: "nat \<Rightarrow> others \<Rightarrow> storage \<Rightarrow> bool \<times> others \<times> storage" where
  "acquireLockWithRetry 0 env st = (False, env, st)"
| "acquireLockWithRetry (Suc n) env st =
     (let (ok, st1) = acquireLock st
      in if ok then (True, env, st1)
         else (let (env1, st2) = sleep env st1 in acquireLockWithRetry n env1 st2))"

text \<open>
  \<^verbatim>\<open>getNextPendingJob()\<close>. The inner loop over the candidates is \<open>tryCandidates\<close>; the
  outer loop of at most ten rounds is \<open>pollRounds\<close>, counted down, so that the round in
  hand is the last one when no round remains after it. A candidate that is no longer
  pending under the lock, or is gone, falls through the \<^verbatim>\<open>if\<close> to the next candidate.
  Nothing inside the \<^verbatim>\<open>try\<close> throws while file-system calls succeed, so its handler
  is never entered.
\<close>

fun tryCandidates :: "int \<Rightarrow> job list \<Rightarrow> others \<Rightarrow> storage \<Rightarrow> job option \<times> others \<times> storage" where
  "tryCandidates now [] env st = (None, env, st)"
| "tryCandidates now (job # rest) env st =
     (case acquireLockWithRetry 3 env st of
        (ok, env1, st1) \<Rightarrow>
          if ok then
            (case yield env1 st1 of
               (env2, st2) \<Rightarrow>
                 (case getJob (job_id job) (load st2) of
                    None \<Rightarrow> tryCandidates now rest env2 (load st2)
                  | Some currentJob \<Rightarrow>
                      if state currentJob = ''pending'' then
                        (let claimed = currentJob\<lparr> state := ''processing'', updated_at := now \<rparr>
                         in (Some claimed, env2,
                             releaseLock (save ((load st2)\<lparr> jobs :=
                               map_set (job_id claimed) claimed (jobs (load st2)) \<rparr>))))
                      else tryCandidates now rest env2 (load st2)))
          else tryCandidates now rest env1 st1)"

fun pollRounds :: "int \<Rightarrow> nat \<Rightarrow> others \<Rightarrow> storage \<Rightarrow> job option \<times> others \<times> storage" where
  "pollRounds now 0 env st = (None, env, st)"
| "pollRounds now (Suc n) env st =
     (case yield env st of
        (env1, st0) \<Rightarrow>
          (let pendingJobs = sort_key created_at (getJobsByState ''pending'' (load st0))
           in case tryCandidates now pendingJobs env1 (load st0) of
                (Some j, env2, st2) \<Rightarrow> (Some j, env2, st2)
              | (None, env2, st2) \<Rightarrow>
                  if pendingJobs = [] then (None, env2, st2)
                  else if 0 < n then (case sleep env2 st2 of (env3, st3) \<Rightarrow> pollRounds now n env3 st3)
                  else pollRounds now n env2 st2))"

definition getNextPendingJob :: "int \<Rightarrow> others \<Rightarrow> storage \<Rightarrow> job option \<times> others \<times> storage" where
  "getNextPendingJob now env st = pollRounds now 10 env st"

section \<open>The enqueue command (src/cli.js)\<close>

text \<open>
  \<^verbatim>\<open>processJobData\<close> after \<^verbatim>\<open>JSON.parse\<close>: the job is built, a falsy command is
  reported and the process exits with the store untouched, otherwise the job is added.
\<close>

definition processJobData :: "int \<Rightarrow> string \<Rightarrow> job_data \<Rightarrow> storage \<Rightarrow> (failure + job) \<times> storage" where
  "processJobData now gen d st =
     (let job = Job_new now gen d
      in if command job = None \<or> command job = Some []
         then (Inl ValidationError, st)
         else (Inr job, addJob job st))"

section \<open>The worker (src/worker.js)\<close>

text \<open>
  The promise of \<^verbatim>\<open>runCommand\<close> resolves to whether the exit code was zero, or the
  call throws (the command is not a string) and \<^verbatim>\<open>await\<close> raises its message. The
  store's calls do not throw, so the handler of \<^verbatim>\<open>executeJob\<close> is entered in two ways:
  by that rejection, and by the \<^verbatim>\<open>RangeError\<close> of \<^verbatim>\<open>calculateNextRetry\<close>.
\<close>

datatype outcome = Resolved bool | Rejected string

text \<open>The decimal digits of a number that is not negative, as string interpolation prints it.\<close>

function decimal :: "int \<Rightarrow> string" where
  "decimal n =
     (if n < 10 then [char_of (48 + n)] else decimal (n div 10) @ [char_of (48 + n mod 10)])"
  by pat_completeness auto
termination
  by (relation "measure nat") auto

text \<open>
  \<^verbatim>\<open>toISOString()\<close> of a valid date, which is what the job's \<^verbatim>\<open>next_retry_at\<close> holds
  and the message prints: the day number since the epoch turned into year, month and day
  of the proleptic Gregorian calendar, a year outside 0 to 9999 written with a sign and
  six digits.
\<close>

definition pad :: "nat \<Rightarrow> int \<Rightarrow> string" where
  "pad w n = replicate (w - length (decimal n)) (CHR ''0'') @ decimal n"

definition civil :: "int \<Rightarrow> int \<times> int \<times> int" where
  "civil days =
     (let z = days + 719468;
          era = z div 146097;
          doe = z - era * 146097;
          yoe = (doe - doe div 1460 + doe div 36524 - doe div 146096) div 365;
          doy = doe - (365 * yoe + yoe div 4 - yoe div 100);
          mp = (5 * doy + 2) div 153;
          d = doy - (153 * mp + 2) div 5 + 1;
          m = (if mp < 10 then mp + 3 else mp - 9);
          y = yoe + era * 400 + (if m \<le> 2 then 1 else 0)
      in (y, m, d))"

definition toISOString :: "int \<Rightarrow> string" where
  "toISOString t =
     (case civil (t div 86400000) of
        (y, m, d) \<Rightarrow>
          (let ms = t mod 86400000;
               year = (if 0 \<le> y \<and> y \<le> 9999 then pad 4 y
                       else (if y < 0 then ''-'' else ''+'') @ pad 6 \<bar>y\<bar>)
           in year @ ''-'' @ pad 2 m @ ''-'' @ pad 2 d @ ''T''
              @ pad 2 (ms div 3600000) @ '':'' @ pad 2 (ms div 60000 mod 60) @ '':''
              @ pad 2 (ms div 1000 mod 60) @ ''.'' @ pad 3 (ms mod 1000) @ ''Z''))"

definition retry_message :: "job \<Rightarrow> string" where
  "retry_message j =
     ''Failed after '' @ decimal (int (attempts j)) @ '' attempt(s). Will retry at ''
     @ (case next_retry_at j of None \<Rightarrow> ''null'' | Some t \<Rightarrow> toISOString t)"

text \<open>
  \<^verbatim>\<open>executeJob(job)\<close>. The result says whether an exception leaves the function, and
  gives the store. The handler is \<open>executeJob_catch\<close>; it is entered with the message of
  the rejected run, or with that of the \<^verbatim>\<open>RangeError\<close> which \<^verbatim>\<open>calculateNextRetry\<close>
  throws inside the \<^verbatim>\<open>try\<close>, when the job already carries the attempt counted there. The
  handler counts an attempt of its own, and when it calls \<^verbatim>\<open>calculateNextRetry\<close> and
  that throws, the exception leaves \<^verbatim>\<open>executeJob\<close> with nothing saved.
\<close>

definition executeJob_catch :: "number \<Rightarrow> int \<Rightarrow> string \<Rightarrow> job \<Rightarrow> storage \<Rightarrow> failure option \<times> storage" where
  "executeJob_catch backoffBase now msg job st =
     (let j1 = job\<lparr> attempts := attempts job + 1, updated_at := now, error := Some msg \<rparr>
      in if max_retries j1 \<le> attempts j1
         then (None, moveToDLQ now j1 st)
         else
           (case calculateNextRetry backoffBase now j1 of
              Inl e \<Rightarrow> (Some e, st)
            | Inr next \<Rightarrow>
                (None, snd (updateJob (j1\<lparr> next_retry_at := Some next, state := ''failed'' \<rparr>) st))))"

definition executeJob :: "number \<Rightarrow> int \<Rightarrow> outcome \<Rightarrow> job \<Rightarrow> storage \<Rightarrow> failure option \<times> storage" where
  "executeJob backoffBase now out job st =
     (case out of
        Resolved success \<Rightarrow>
          if success
          then (None, snd (updateJob (job\<lparr> state := ''completed'', updated_at := now,
                                          error := None \<rparr>) st))
          else
            (let j1 = job\<lparr> attempts := attempts job + 1, updated_at := now \<rparr>
             in if max_retries j1 \<le> attempts j1
                then (None, moveToDLQ now (j1\<lparr> state := ''failed'',
                                               error := Some ''Max retries exceeded'' \<rparr>) st)
                else
                  (case calculateNextRetry backoffBase now j1 of
                     Inl e \<Rightarrow> executeJob_catch backoffBase now ''Invalid time value'' j1 st
                   | Inr next \<Rightarrow>
                       (let j2 = j1\<lparr> next_retry_at := Some next \<rparr>
                        in (None, snd (updateJob (j2\<lparr> state := ''failed'',
                                                      error := Some (retry_message j2) \<rparr>) st)))))
      | Rejected msg \<Rightarrow> executeJob_catch backoffBase now msg job st)"

text \<open>
  \<^verbatim>\<open>processNextJob()\<close>. The argument of \<^verbatim>\<open>find\<close> is \<open>retryReady\<close> and its result
  is \<open>readyToRetry\<close>. One cycle runs at most one command; \<open>out\<close> is how it ends and
  \<open>fin\<close> the clock reading then. An exception that leaves \<^verbatim>\<open>executeJob\<close> leaves
  \<^verbatim>\<open>processNextJob\<close> too; the worker's loop logs it and goes on.
\<close>

definition retryReady :: "int \<Rightarrow> string \<Rightarrow> job \<Rightarrow> bool" where
  "retryReady now gen j =
     (let jobObj = fromJSON now gen j in canRetry jobObj \<and> shouldRetryNow now jobObj)"

definition readyToRetry :: "int \<Rightarrow> string \<Rightarrow> storage \<Rightarrow> job option" where
  "readyToRetry now gen st = find (retryReady now gen) (getJobsByState ''failed'' st)"

definition processNextJob ::
    "int \<Rightarrow> int \<Rightarrow> string \<Rightarrow> number \<Rightarrow> outcome \<Rightarrow> others \<Rightarrow> storage
     \<Rightarrow> failure option \<times> others \<times> storage" where
  "processNextJob now fin gen backoffBase out env st =
     (case getNextPendingJob now env st of
        (Some j, env1, st1) \<Rightarrow>
          (case executeJob backoffBase fin out (fromJSON now gen j) st1 of
             (thrown, st2) \<Rightarrow> (thrown, env1, st2))
      | (None, env1, st1) \<Rightarrow>
          (case readyToRetry now gen st1 of
             None \<Rightarrow> (None, env1, st1)
           | Some r \<Rightarrow>
               (let jobObj = (fromJSON now gen r)\<lparr> state := ''pending'', updated_at := now \<rparr>
                in case getNextPendingJob now env1 (snd (updateJob jobObj st1)) of
                     (Some p, env2, st3) \<Rightarrow>
                       (case executeJob backoffBase fin out (fromJSON now gen p) st3 of
                          (thrown, st4) \<Rightarrow> (thrown, env2, st4))
                   | (None, env2, st3) \<Rightarrow> (None, env2, st3))))"

section \<open>What the properties speak of\<close>

text \<open>
  The tables are apart when no key is in both and every entry sits under its own job's
  id. The files are apart when both are absent (a fresh data directory) or both are
  present and apart; \<^verbatim>\<open>save\<close> always writes both.
\<close>

definition keyed :: "table \<Rightarrow> bool" where
  "keyed t = list_all (\<lambda>p. job_id (snd p) = fst p) t"

definition apart :: "table \<Rightarrow> table \<Rightarrow> bool" where
  "apart a d = (set (keys a) \<inter> set (keys d) = {} \<and> keyed a \<and> keyed d)"

definition files_apart :: "files \<Rightarrow> bool" where
  "files_apart f =
     (case jobs_file f of
        None \<Rightarrow> dlq_file f = None
      | Some a \<Rightarrow> (case dlq_file f of None \<Rightarrow> False | Some d \<Rightarrow> apart a d))"

definition store_inv :: "storage \<Rightarrow> bool" where
  "store_inv st = (apart (jobs st) (dlq st) \<and> files_apart (disk st))"

text \<open>A write of another process is harmless when it leaves files that are apart so.\<close>

definition harmless :: "(files \<Rightarrow> files) \<Rightarrow> bool" where
  "harmless e = (\<forall>f. files_apart f \<longrightarrow> files_apart (e f))"

text \<open>
  Consecutive executions of one job, as the worker performs them: each takes the job's
  record from the reloaded active table, as \<^verbatim>\<open>getNextPendingJob\<close> returns it, builds
  the \<^verbatim>\<open>Job\<close> with \<^verbatim>\<open>Job.fromJSON\<close> and hands it to \<^verbatim>\<open>executeJob\<close> with the
  clock reading and the outcome of that run. What happens to the record between two
  executions (promotion to pending, the claim as processing) touches only its state and
  its update time, which \<^verbatim>\<open>executeJob\<close> overwrites when it saves the job.
\<close>

fun executions :: "number \<Rightarrow> string \<Rightarrow> (int \<times> outcome) list \<Rightarrow> string \<Rightarrow> storage \<Rightarrow> storage" where
  "executions backoffBase gen [] k st = st"
| "executions backoffBase gen (run # rest) k st =
     (case getJob k (load st) of
        None \<Rightarrow> st
      | Some r \<Rightarrow>
          executions backoffBase gen rest k
            (snd (executeJob backoffBase (fst run) (snd run) (fromJSON (fst run) gen r) (load st))))"

subsection \<open>Concrete stores and jobs\<close>

definition no_files :: files where
  "no_files = \<lparr> jobs_file = None, dlq_file = None, lock_file = None, alive = {1, 2} \<rparr>"

definition fresh_store :: storage where
  "fresh_store = \<lparr> jobs = [], dlq = [], lockHandle = False, pid = 1, disk = no_files \<rparr>"

definition zero_retries :: job_data where
  "zero_retries =
     \<lparr> d_id = Some ''job1'', d_command = Some ''exit 1'', d_state = None, d_attempts = None,
       d_max_retries = Some 0, d_created_at = None, d_updated_at = None, d_error = None,
       d_next_retry_at = None \<rparr>"

definition one_retry :: job_data where
  "one_retry = zero_retries\<lparr> d_max_retries := Some 1 \<rparr>"

definition two_retries :: job_data where
  "two_retries = zero_retries\<lparr> d_max_retries := Some 2 \<rparr>"

definition three_retries :: job_data where
  "three_retries = zero_retries\<lparr> d_max_retries := None \<rparr>"

definition no_command :: job_data where
  "no_command = zero_retries\<lparr> d_command := Some [] \<rparr>"

definition job_J :: job where
  "job_J =
     \<lparr> job_id = ''J'', command = Some ''echo ok'', state = ''pending'', attempts = 0,
       max_retries = 3, created_at = 0, updated_at = 0, error = None, next_retry_at = None \<rparr>"

definition one_pending :: storage where
  "one_pending =
     \<lparr> jobs = [(''J'', job_J)], dlq = [], lockHandle = False, pid = 1,
       disk = \<lparr> jobs_file = Some [(''J'', job_J)], dlq_file = Some [], lock_file = None,
                alive = {1, 2} \<rparr> \<rparr>"

text \<open>Process 2 claims job J: what its \<^verbatim>\<open>save\<close> leaves in the two files.\<close>

definition other_claims_J :: "files \<Rightarrow> files" where
  "other_claims_J f =
     f\<lparr> jobs_file := Some [(''J'', job_J\<lparr> state := ''processing'', updated_at := 5 \<rparr>)],
        dlq_file := Some [] \<rparr>"

definition untouched :: "files \<Rightarrow> files" where
  "untouched f = f"

definition job_a :: job where
  "job_a =
     \<lparr> job_id = ''a'', command = Some ''exit 1'', state = ''failed'', attempts = 2,
       max_retries = 3, created_at = 0, updated_at = 300000,
       error = Some ''Failed after 2 attempt(s). Will retry at 1970-01-01T00:05:04.000Z'',
       next_retry_at = Some 304000 \<rparr>"

definition job_b :: job where
  "job_b =
     \<lparr> job_id = ''b'', command = Some ''exit 1'', state = ''failed'', attempts = 1,
       max_retries = 3, created_at = 1000, updated_at = 200000,
       error = Some ''Failed after 1 attempt(s). Will retry at 1970-01-01T00:03:22.000Z'',
       next_retry_at = Some 202000 \<rparr>"

definition two_failed :: storage where
  "two_failed =
     \<lparr> jobs = [(''a'', job_a), (''b'', job_b)], dlq = [], lockHandle = False, pid = 1,
       disk = \<lparr> jobs_file = Some [(''a'', job_a), (''b'', job_b)], dlq_file = Some [],
                lock_file = None, alive = {1} \<rparr> \<rparr>"

definition job_x :: job where
  "job_x =
     \<lparr> job_id = ''x'', command = Some ''exit 1'', state = ''dead'', attempts = 3,
       max_retries = 3, created_at = 0, updated_at = 9000,
       error = Some ''Max retries exceeded'', next_retry_at = Some 7000 \<rparr>"

definition one_dead :: storage where
  "one_dead =
     \<lparr> jobs = [], dlq = [(''x'', job_x)], lockHandle = False, pid = 1,
       disk = \<lparr> jobs_file = Some [], dlq_file = Some [(''x'', job_x)], lock_file = None,
                alive = {1} \<rparr> \<rparr>"

definition same_id :: job_data where
  "same_id =
     \<lparr> d_id = Some ''x'', d_command = Some ''echo again'', d_state = None, d_attempts = None,
       d_max_retries = None, d_created_at = None, d_updated_at = None, d_error = None,
       d_next_retry_at = None \<rparr>"

section \<open>Properties of the job record\<close>




text \<open>
  The rendering of dates at instants whose strings are known: the epoch, a day in 2023,
  and the first and the last valid date.
\<close>

lemma toISOString_known:
  "toISOString 0 = ''1970-01-01T00:00:00.000Z''
   \<and> toISOString 1700000000000 = ''2023-11-14T22:13:20.000Z''
   \<and> toISOString (- 8640000000000000) = ''-271821-04-20T00:00:00.000Z''
   \<and> toISOString 8640000000000000 = ''+275760-09-13T00:00:00.000Z''"
  by code_simp

section \<open>Lemmas about tables\<close>

lemma keys_map_set_has: "map_has t k \<Longrightarrow> keys (map_set k v t) = keys t"
  by (induction t) (auto simp: map_set_def keys_def map_has_def)

lemma keys_map_set: "set (keys (map_set k v t)) = insert k (set (keys t))"
proof (cases "map_has t k")
  case True
  then show ?thesis
    by (auto simp: keys_map_set_has map_has_def)
next
  case False
  then show ?thesis
    by (simp add: map_set_def keys_def)
qed

lemma keys_map_delete: "set (keys (map_delete k t)) = set (keys t) - {k}"
  by (auto simp: keys_def map_delete_def)

lemma map_has_get: "map_has t k \<longleftrightarrow> map_get t k \<noteq> None"
  by (simp add: map_has_def map_get_def keys_def map_of_eq_None_iff)

lemma map_get_map_set: "map_get (map_set k v t) k' = (if k' = k then Some v else map_get t k')"
proof (cases "map_has t k")
  case True
  have "map_of (map (\<lambda>p. if fst p = k then (k, v) else p) t) k' =
        (if k' = k then map_option (\<lambda>_. v) (map_of t k) else map_of t k')"
    by (induction t) auto
  moreover from True have "map_of t k \<noteq> None"
    by (simp add: map_has_def keys_def map_of_eq_None_iff)
  then obtain w where "map_of t k = Some w"
    by blast
  ultimately show ?thesis
    using True by (simp add: map_set_def map_get_def)
next
  case False
  then have "map_of t k = None"
    by (simp add: map_has_def keys_def map_of_eq_None_iff)
  with False show ?thesis
    by (auto simp: map_set_def map_get_def map_add_def split: option.splits)
qed

lemma map_get_map_delete: "map_get (map_delete k t) k' = (if k' = k then None else map_get t k')"
  by (induction t) (auto simp: map_delete_def map_get_def)

lemma length_map_set: "map_has t k \<Longrightarrow> length (map_set k v t) = length t"
  by (simp add: map_set_def)

lemma set_object_entries: "set (object_entries t) = set t"
  by (auto simp: object_entries_def)

lemma keys_object_entries: "set (keys (object_entries t)) = set (keys t)"
  by (simp add: keys_def set_object_entries)

lemma length_object_entries: "length (object_entries t) = length t"
  using sum_length_filter_compl [of "is_array_index \<circ> fst" t]
  by (simp add: object_entries_def comp_def)

lemma map_of_key_filter: "map_of t k = map_of (filter (\<lambda>p. fst p = k) t) k"
  by (induction t) auto

lemma map_of_sort_key: "map_of (sort_key (g \<circ> fst) t) k = map_of t k"
proof -
  have "filter (\<lambda>p. fst p = k) (sort_key (g \<circ> fst) t)
        = filter (\<lambda>p. fst p = k) (filter (\<lambda>p. (g \<circ> fst) p = g k) (sort_key (g \<circ> fst) t))"
    by (simp add: conj_commute cong: conj_cong)
  also have "\<dots> = filter (\<lambda>p. fst p = k) (filter (\<lambda>p. (g \<circ> fst) p = g k) t)"
    by (simp only: sort_key_stable)
  also have "\<dots> = filter (\<lambda>p. fst p = k) t"
    by (simp add: conj_commute cong: conj_cong)
  finally show ?thesis
    using map_of_key_filter by metis
qed

lemma map_get_object_entries: "map_get (object_entries t) k = map_get t k"
proof (cases "is_array_index k")
  case True
  have "map_of (filter (is_array_index \<circ> fst) t) k = map_of t k"
    using True by (induction t) auto
  then show ?thesis
    by (simp add: object_entries_def map_get_def map_add_def map_of_sort_key split: option.splits)
       (auto simp: map_of_eq_None_iff True)
next
  case False
  have a: "map_of (filter (\<lambda>p. \<not> is_array_index (fst p)) t) k = map_of t k"
    using False by (induction t) auto
  have b: "map_of (filter (is_array_index \<circ> fst) t) k = None"
    using False by (auto simp: map_of_eq_None_iff)
  show ?thesis
    by (simp add: object_entries_def map_get_def map_add_def map_of_sort_key a b)
qed

lemma load_disk: "disk (load st) = disk st"
  by (simp add: load_def)

lemma load_load: "load (load st) = load st"
  by (simp add: load_def split: option.splits)

section \<open>Properties of the store\<close>

lemma calculateNextRetry_attempts:
  "attempts j = attempts j' \<Longrightarrow> calculateNextRetry base now j = calculateNextRetry base now j'"
  by (simp add: calculateNextRetry_def delay_def)

text \<open>
  C9, as the specification states it, fails in its consequence for Fail: job a is not in
  the active table, and the failure that exhausts its retries, reported for it, goes
  through \<^verbatim>\<open>moveToDLQ\<close>, which writes the job into the dead-letter table and the file.
\<close>

theorem final_fail_writes_dead_letter:
  "\<not> map_has (jobs (load one_pending)) (job_id job_a)
   \<and> dlq_file (disk one_pending) = Some []
   \<and> (case executeJob (Whole 2) 400000 (Resolved False) job_a one_pending of
        (thrown, st) \<Rightarrow>
          thrown = None
          \<and> map (\<lambda>p. (fst p, state (snd p), attempts (snd p))) (dlq st) = [(''a'', ''dead'', 3)]
          \<and> map_option keys (dlq_file (disk st)) = Some [''a''])"
  by code_simp

text \<open>
  C9, amended. For a job whose id is not in the active table as \<^verbatim>\<open>updateJob\<close> reloads it,
  \<^verbatim>\<open>updateJob\<close> returns false and writes nothing: the files, and with them both
  durable tables, are as before, and the store is left as the reload made it. So a
  success reported for such a job, and a failure that schedules a retry, whether the run
  exited nonzero or was rejected, are silent: nothing is thrown and nothing is written.
\<close>

theorem updateJob_absent:
  assumes "\<not> map_has (jobs (load st)) (job_id j)"
  shows "fst (updateJob j st) = False
         \<and> disk (snd (updateJob j st)) = disk st
         \<and> snd (updateJob j st) = load st
         \<and> executeJob base now (Resolved True) j st = (None, load st)
         \<and> (attempts j + 1 < max_retries j
              \<and> calculateNextRetry base now (j\<lparr> attempts := attempts j + 1 \<rparr>) = Inr w \<longrightarrow>
              executeJob base now (Resolved False) j st = (None, load st)
              \<and> executeJob base now (Rejected msg) j st = (None, load st))"
proof -
  have absent: "\<And>j'. job_id j' = job_id j \<Longrightarrow> updateJob j' st = (False, load st)"
    using assms by (simp add: updateJob_def Let_def)
  have "fst (updateJob j st) = False \<and> disk (snd (updateJob j st)) = disk st
        \<and> snd (updateJob j st) = load st"
    using assms by (simp add: updateJob_def Let_def load_disk)
  moreover have "executeJob base now (Resolved True) j st = (None, load st)"
    by (simp add: executeJob_def absent)
  moreover have "executeJob base now (Resolved False) j st = (None, load st)"
    and "executeJob base now (Rejected msg) j st = (None, load st)"
    if "attempts j + 1 < max_retries j"
      and "calculateNextRetry base now (j\<lparr> attempts := attempts j + 1 \<rparr>) = Inr w"
  proof -
    have "calculateNextRetry base now (j\<lparr> attempts := attempts j + 1, updated_at := now \<rparr>) = Inr w"
      using that(2) calculateNextRetry_attempts
        [of "j\<lparr> attempts := attempts j + 1, updated_at := now \<rparr>" "j\<lparr> attempts := attempts j + 1 \<rparr>"]
      by simp
    with that(1) show "executeJob base now (Resolved False) j st = (None, load st)"
      by (simp add: executeJob_def Let_def absent)
    have "calculateNextRetry base now
            (j\<lparr> attempts := attempts j + 1, updated_at := now, error := Some msg \<rparr>) = Inr w"
      using that(2) calculateNextRetry_attempts
        [of "j\<lparr> attempts := attempts j + 1, updated_at := now, error := Some msg \<rparr>"
            "j\<lparr> attempts := attempts j + 1 \<rparr>"]
      by simp
    with that(1) show "executeJob base now (Rejected msg) j st = (None, load st)"
      by (simp add: executeJob_def executeJob_catch_def Let_def absent)
  qed
  ultimately show ?thesis
    by blast
qed

theorem updateJob_absent_witness:
  "\<not> map_has (jobs (load one_pending)) (job_id job_b)
   \<and> fst (updateJob job_b one_pending) = False
   \<and> disk (snd (updateJob job_b one_pending)) = disk one_pending
   \<and> snd (updateJob job_b one_pending) = one_pending
   \<and> attempts job_b + 1 < max_retries job_b
   \<and> calculateNextRetry (Whole 2) 400000 (job_b\<lparr> attempts := attempts job_b + 1 \<rparr>) = Inr 404000
   \<and> executeJob (Whole 2) 400000 (Resolved True) job_b one_pending = (None, one_pending)
   \<and> executeJob (Whole 2) 400000 (Resolved False) job_b one_pending = (None, one_pending)
   \<and> executeJob (Whole 2) 400000 (Rejected ''spawn EACCES'') job_b one_pending = (None, one_pending)"
proof -
  have absent: "\<not> map_has (jobs (load one_pending)) (job_id job_b)"
    by code_simp
  have same: "load one_pending = one_pending"
    by code_simp
  have more: "attempts job_b + 1 < max_retries job_b"
    by code_simp
  have due: "calculateNextRetry (Whole 2) 400000 (job_b\<lparr> attempts := attempts job_b + 1 \<rparr>) = Inr 404000"
    by code_simp
  from updateJob_absent [OF absent, where base = "Whole 2" and now = 400000 and w = 404000
                           and msg = "''spawn EACCES''"]
    absent same more due
  show ?thesis
    by simp
qed

text \<open>
  C7. When \<open>jobId\<close> is in the dead-letter table, \<^verbatim>\<open>retryFromDLQ\<close> returns the
  record with state pending, attempts 0 and a new update time, the dead-letter table no
  longer has \<open>jobId\<close>, the active table holds the returned record under the record's id,
  and both tables are written out. When \<open>jobId\<close> is not in the dead-letter table it
  returns nothing (the command reports that the job was not found) and the store is
  unchanged.
\<close>

theorem retryFromDLQ_moves:
  "(map_get (dlq st) jobId = Some j0 \<longrightarrow>
      (let j = j0\<lparr> state := ''pending'', attempts := 0, updated_at := now \<rparr>;
           st' = snd (retryFromDLQ now jobId st)
       in fst (retryFromDLQ now jobId st) = Some j
          \<and> map_get (dlq st') jobId = None
          \<and> map_get (jobs st') (job_id j0) = Some j
          \<and> dlq_file (disk st') = Some (object_entries (dlq st'))
          \<and> jobs_file (disk st') = Some (object_entries (jobs st'))))
   \<and> (map_get (dlq st) jobId = None \<longrightarrow> retryFromDLQ now jobId st = (None, st))"
  by (simp add: retryFromDLQ_def Let_def save_def map_get_map_delete map_get_map_set)

theorem retryFromDLQ_moves_witness:
  "map_get (dlq one_dead) ''x'' = Some job_x
   \<and> fst (retryFromDLQ 9500 ''x'' one_dead) = Some (job_x\<lparr> state := ''pending'', attempts := 0, updated_at := 9500 \<rparr>)
   \<and> map_get (dlq (snd (retryFromDLQ 9500 ''x'' one_dead))) ''x'' = None
   \<and> map_get (jobs (snd (retryFromDLQ 9500 ''x'' one_dead))) ''x''
       = Some (job_x\<lparr> state := ''pending'', attempts := 0, updated_at := 9500 \<rparr>)
   \<and> map_get (dlq one_dead) ''y'' = None
   \<and> retryFromDLQ 9500 ''y'' one_dead = (None, one_dead)"
proof -
  have present: "map_get (dlq one_dead) ''x'' = Some job_x"
    by code_simp
  have absent: "map_get (dlq one_dead) ''y'' = None"
    by code_simp
  have id: "job_id job_x = ''x''"
    by (simp add: job_x_def)
  from retryFromDLQ_moves [of one_dead "''x''" job_x 9500] retryFromDLQ_moves [of one_dead "''y''" job_x 9500]
    present absent id
  show ?thesis
    by (simp add: Let_def)
qed

text \<open>
  C2. Enqueue with a missing or empty command fails with a validation error and leaves the
  store as it was. Enqueue with a non-empty command yields the job, whose id is the one
  given, or the generated one when none or an empty one was given; the job is in the
  active table under its id, and the table is written to the jobs file.
\<close>

theorem processJobData_validates:
  "(d_command d = None \<or> d_command d = Some [] \<longrightarrow>
      processJobData now gen d st = (Inl ValidationError, st))
   \<and> (d_command d = Some c \<and> c \<noteq> [] \<longrightarrow>
      (let job = Job_new now gen d; st' = snd (processJobData now gen d st)
       in fst (processJobData now gen d st) = Inr job
          \<and> job_id job = (case d_id d of None \<Rightarrow> gen | Some i \<Rightarrow> if i = [] then gen else i)
          \<and> command job = Some c
          \<and> map_get (jobs st') (job_id job) = Some job
          \<and> jobs_file (disk st') = Some (object_entries (jobs st'))
          \<and> map_get (object_entries (jobs st')) (job_id job) = Some job))"
  by (auto simp: processJobData_def Let_def Job_new_def or_string_def addJob_def save_def
      map_get_map_set map_get_object_entries split: option.splits)

theorem processJobData_validates_witness:
  "d_command no_command = Some []
   \<and> processJobData 100 ''job-100-k3x'' no_command fresh_store = (Inl ValidationError, fresh_store)
   \<and> d_command one_retry = Some ''exit 1''
   \<and> fst (processJobData 100 ''job-100-k3x'' one_retry fresh_store)
       = Inr (Job_new 100 ''job-100-k3x'' one_retry)
   \<and> map_get (jobs (snd (processJobData 100 ''job-100-k3x'' one_retry fresh_store))) ''job1''
       = Some (Job_new 100 ''job-100-k3x'' one_retry)
   \<and> jobs_file (disk (snd (processJobData 100 ''job-100-k3x'' one_retry fresh_store)))
       = Some [(''job1'', Job_new 100 ''job-100-k3x'' one_retry)]"
proof -
  have empty: "d_command no_command = Some []"
    by (simp add: no_command_def)
  have given: "d_command one_retry = Some ''exit 1''"
    by (simp add: one_retry_def zero_retries_def)
  have id: "job_id (Job_new 100 ''job-100-k3x'' one_retry) = ''job1''"
    by (simp add: one_retry_def zero_retries_def Job_new_def or_string_def)
  have given_id: "d_id one_retry = Some ''job1''"
    by (simp add: one_retry_def zero_retries_def)
  have written: "object_entries (jobs (snd (processJobData 100 ''job-100-k3x'' one_retry fresh_store)))
       = [(''job1'', Job_new 100 ''job-100-k3x'' one_retry)]"
    by code_simp
  from processJobData_validates [of no_command 100 "''job-100-k3x''" fresh_store "''exit 1''"]
       processJobData_validates [of one_retry 100 "''job-100-k3x''" fresh_store "''exit 1''"]
       empty given id given_id written
  show ?thesis
    by (simp add: Let_def)
qed

text \<open>
  C10. Adding a job whose id is already in the active table replaces the record under
  that id in place: the table has the same keys in the same order and the same number of
  entries, the id now maps to the new record, and the file written has as many entries.
\<close>

theorem addJob_replaces:
  assumes "map_has (jobs st) (job_id j)"
  shows "length (jobs (addJob j st)) = length (jobs st)
         \<and> keys (jobs (addJob j st)) = keys (jobs st)
         \<and> map_get (jobs (addJob j st)) (job_id j) = Some j
         \<and> (\<exists>t. jobs_file (disk (addJob j st)) = Some t \<and> length t = length (jobs st)
                \<and> map_get t (job_id j) = Some j)"
  using assms
  by (simp add: addJob_def save_def length_map_set keys_map_set_has map_get_map_set
      length_object_entries map_get_object_entries)

theorem addJob_replaces_witness:
  "map_has (jobs one_pending) (job_id (job_J\<lparr> command := Some ''echo twice'' \<rparr>))
   \<and> length (jobs (addJob (job_J\<lparr> command := Some ''echo twice'' \<rparr>) one_pending)) = 1
   \<and> map_get (jobs (addJob (job_J\<lparr> command := Some ''echo twice'' \<rparr>) one_pending)) ''J''
       = Some (job_J\<lparr> command := Some ''echo twice'' \<rparr>)"
proof -
  have present: "map_has (jobs one_pending) (job_id (job_J\<lparr> command := Some ''echo twice'' \<rparr>))"
    by code_simp
  have id: "job_id (job_J\<lparr> command := Some ''echo twice'' \<rparr>) = ''J''"
    by (simp add: job_J_def)
  have one: "length (jobs one_pending) = 1"
    by (simp add: one_pending_def)
  from addJob_replaces [OF present] present id one show ?thesis
    by simp
qed

section \<open>Properties of the worker\<close>

text \<open>
  C1. A job is enqueued with \<^verbatim>\<open>max_retries\<close> 0 and its command fails in the next
  worker cycle. The specification has the record stored with 0 retries and the job moved
  to the dead-letter table by that failure. In the code the constructor's
  \<^verbatim>\<open>data.max_retries || 3\<close> stores 3, and after the failure the job is in the active
  table, failed, with one attempt, and the dead-letter table is empty.
\<close>

theorem zero_retries_stored_as_three:
  "(case processJobData 100 ''job-100-k3x'' zero_retries fresh_store of
      (result, st) \<Rightarrow>
        result = Inr (Job_new 100 ''job-100-k3x'' zero_retries)
        \<and> map (\<lambda>p. (fst p, max_retries (snd p))) (jobs st) = [(''job1'', 3)]
        \<and> (case processNextJob 2000 2500 ''job-2000-q'' (Whole 2) (Resolved False) [] st of
             (thrown, env, st') \<Rightarrow>
               thrown = None
               \<and> map (\<lambda>p. (fst p, state (snd p), attempts (snd p), max_retries (snd p))) (jobs st')
                  = [(''job1'', ''failed'', 1, 3)]
               \<and> dlq st' = []))"
  by code_simp

text \<open>
  C3. Process 1 starts \<^verbatim>\<open>getNextPendingJob\<close> without the lock and selects the pending
  job J; process 2 claims J before process 1 reloads under the lock. The specification has
  the lock released before the next candidate is tried and before the call returns. In the
  code the call returns no job with the lock handle set and the lock file still naming
  process 1.
\<close>

theorem lock_kept_after_lost_candidate:
  "lockHandle one_pending = False
   \<and> lock_file (disk one_pending) = None
   \<and> (case getNextPendingJob 10 [untouched, other_claims_J] one_pending of
        (found, env, st) \<Rightarrow>
          found = None \<and> lockHandle st = True \<and> lock_file (disk st) = Some (pid st))"
  by code_simp

text \<open>
  C5, as the specification states it, fails: with the failed jobs a and b both ready for
  retry, a first in the table and b the older by update time, no job is pending, the job
  found for promotion is a, and after the cycle a is completed while b is still failed.
\<close>

theorem promoted_not_oldest:
  "(case getNextPendingJob 1000000 [] two_failed of
      (found, env, st) \<Rightarrow>
        found = None
        \<and> readyToRetry 1000000 ''job-1000000-z'' st = Some job_a
        \<and> job_b \<in> set (getJobsByState ''failed'' st)
        \<and> retryReady 1000000 ''job-1000000-z'' job_b
        \<and> updated_at job_b < updated_at job_a)
   \<and> (case processNextJob 1000000 1000500 ''job-1000000-z'' (Whole 2) (Resolved True) [] two_failed of
        (thrown, env, st) \<Rightarrow>
          map (\<lambda>p. (fst p, state (snd p))) (jobs st) = [(''a'', ''completed''), (''b'', ''failed'')])"
  by code_simp

lemma find_first:
  "find P xs = Some x \<Longrightarrow> \<exists>before after. xs = before @ x # after \<and> P x \<and> list_all (\<lambda>y. \<not> P y) before"
proof (induction xs)
  case Nil
  then show ?case by simp
next
  case (Cons y ys)
  show ?case
  proof (cases "P y")
    case True
    with Cons.prems have "x = y" by simp
    with True have "y # ys = [] @ x # ys \<and> P x \<and> list_all (\<lambda>y. \<not> P y) []" by simp
    then show ?thesis by blast
  next
    case False
    with Cons.prems have "find P ys = Some x" by simp
    from Cons.IH [OF this] obtain before after
      where "ys = before @ x # after" "P x" "list_all (\<lambda>y. \<not> P y) before" by blast
    with False have "y # ys = (y # before) @ x # after \<and> P x \<and> list_all (\<lambda>y. \<not> P y) (y # before)"
      by simp
    then show ?thesis by blast
  qed
qed

text \<open>
  C5, amended. In a worker cycle where \<^verbatim>\<open>getNextPendingJob\<close> returns no job, the job
  promoted to pending is the first failed job, in the order of the active table, for which
  \<^verbatim>\<open>canRetry()\<close> and \<^verbatim>\<open>shouldRetryNow()\<close> both hold: no failed job before it in
  the table is ready, and it is this job that the cycle writes back as pending before it
  polls again.
\<close>

theorem promotes_first_ready:
  assumes "fst (getNextPendingJob now env st) = None"
      and "env1 = fst (snd (getNextPendingJob now env st))"
      and "st1 = snd (snd (getNextPendingJob now env st))"
      and "readyToRetry now gen st1 = Some r"
  shows "(\<exists>before after.
            getJobsByState ''failed'' st1 = before @ r # after
            \<and> canRetry (fromJSON now gen r) \<and> shouldRetryNow now (fromJSON now gen r)
            \<and> list_all (\<lambda>j. \<not> retryReady now gen j) before)
         \<and> processNextJob now fin gen backoffBase out env st =
             (case getNextPendingJob now env1
                     (snd (updateJob ((fromJSON now gen r)\<lparr> state := ''pending'', updated_at := now \<rparr>) st1)) of
                (Some p, env2, st3) \<Rightarrow>
                  (case executeJob backoffBase fin out (fromJSON now gen p) st3 of
                     (thrown, st4) \<Rightarrow> (thrown, env2, st4))
              | (None, env2, st3) \<Rightarrow> (None, env2, st3))"
proof -
  from assms(4) have "find (retryReady now gen) (getJobsByState ''failed'' st1) = Some r"
    by (simp add: readyToRetry_def)
  from find_first [OF this] obtain before after
    where "getJobsByState ''failed'' st1 = before @ r # after" "retryReady now gen r"
      "list_all (\<lambda>j. \<not> retryReady now gen j) before" by blast
  then have first: "\<exists>before after.
            getJobsByState ''failed'' st1 = before @ r # after
            \<and> canRetry (fromJSON now gen r) \<and> shouldRetryNow now (fromJSON now gen r)
            \<and> list_all (\<lambda>j. \<not> retryReady now gen j) before"
    by (auto simp: retryReady_def Let_def)
  from assms(1-3) have "getNextPendingJob now env st = (None, env1, st1)"
    by (metis prod.collapse)
  with assms(4) have "processNextJob now fin gen backoffBase out env st =
             (case getNextPendingJob now env1
                     (snd (updateJob ((fromJSON now gen r)\<lparr> state := ''pending'', updated_at := now \<rparr>) st1)) of
                (Some p, env2, st3) \<Rightarrow>
                  (case executeJob backoffBase fin out (fromJSON now gen p) st3 of
                     (thrown, st4) \<Rightarrow> (thrown, env2, st4))
              | (None, env2, st3) \<Rightarrow> (None, env2, st3))"
    by (simp add: processNextJob_def Let_def)
  with first show ?thesis by blast
qed

theorem promotes_first_ready_witness:
  "fst (getNextPendingJob 1000000 [] two_failed) = None
   \<and> snd (snd (getNextPendingJob 1000000 [] two_failed)) = two_failed
   \<and> readyToRetry 1000000 ''job-1000000-z'' two_failed = Some job_a
   \<and> (\<exists>before after.
        getJobsByState ''failed'' two_failed = before @ job_a # after
        \<and> canRetry (fromJSON 1000000 ''job-1000000-z'' job_a)
        \<and> list_all (\<lambda>j. \<not> retryReady 1000000 ''job-1000000-z'' j) before)"
proof -
  have none: "fst (getNextPendingJob 1000000 [] two_failed) = None"
    by code_simp
  have after: "two_failed = snd (snd (getNextPendingJob 1000000 [] two_failed))"
    by code_simp
  have ready: "readyToRetry 1000000 ''job-1000000-z'' two_failed = Some job_a"
    by code_simp
  from promotes_first_ready [OF none refl after ready] none after ready show ?thesis
    by metis
qed

section \<open>Retries up to the dead-letter table\<close>

lemma fromJSON_fields:
  assumes "job_id r \<noteq> []" and "max_retries r \<noteq> 0"
  shows "job_id (fromJSON t gen r) = job_id r"
    and "attempts (fromJSON t gen r) = attempts r"
    and "max_retries (fromJSON t gen r) = max_retries r"
  using assms by (simp_all add: fromJSON_def Job_new_def toJSON_def or_string_def or_number_def)

lemma calculateNextRetry_valid:
  assumes "valid_time t" and "valid_time (t + 1000 * b ^ attempts j)"
  shows "calculateNextRetry (Whole b) t j = Inr (t + 1000 * b ^ attempts j)"
  using assms by (simp add: calculateNextRetry_def delay_def Math_pow_def)

lemma executeJob_retry:
  assumes "out \<noteq> Resolved True" and "attempts j + 1 < max_retries j"
      and "map_has (jobs (load st)) (job_id j)"
      and "valid_time t" and "valid_time (t + 1000 * b ^ (attempts j + 1))"
  shows "\<exists>j'. executeJob (Whole b) t out j (load st)
               = (None, save ((load st)\<lparr> jobs := map_set (job_id j) j' (jobs (load st)) \<rparr>))
             \<and> job_id j' = job_id j \<and> attempts j' = attempts j + 1
             \<and> max_retries j' = max_retries j"
proof (cases out)
  case (Resolved success)
  with assms(1) have "\<not> success" by simp
  moreover have "calculateNextRetry (Whole b) t (j\<lparr> attempts := Suc (attempts j), updated_at := t \<rparr>)
        = Inr (t + 1000 * b ^ (attempts j + 1))"
    using calculateNextRetry_valid [of t b "j\<lparr> attempts := Suc (attempts j), updated_at := t \<rparr>"]
      assms(4,5) by simp
  ultimately show ?thesis
    using Resolved assms(2,3)
    by (simp add: executeJob_def Let_def updateJob_def load_load)
       ((rule exI conjI refl | simp)+)?
next
  case (Rejected msg)
  have "calculateNextRetry (Whole b) t
          (j\<lparr> attempts := Suc (attempts j), updated_at := t, error := Some msg \<rparr>)
        = Inr (t + 1000 * b ^ (attempts j + 1))"
    using calculateNextRetry_valid
      [of t b "j\<lparr> attempts := Suc (attempts j), updated_at := t, error := Some msg \<rparr>"]
      assms(4,5) by simp
  with Rejected assms(2,3) show ?thesis
    by (simp add: executeJob_def executeJob_catch_def Let_def updateJob_def load_load)
       ((rule exI conjI refl | simp)+)?
qed

lemma executeJob_dead:
  assumes "out \<noteq> Resolved True" and "max_retries j \<le> attempts j + 1"
  shows "\<exists>d. executeJob base t out j st
               = (None, save (st\<lparr> dlq := map_set (job_id j) d (dlq st),
                                   jobs := map_delete (job_id j) (jobs st) \<rparr>))
             \<and> job_id d = job_id j \<and> attempts d = attempts j + 1
             \<and> state d = ''dead'' \<and> error d \<noteq> None"
proof (cases out)
  case (Resolved success)
  with assms(1) have "\<not> success" by simp
  with Resolved assms(2) show ?thesis
    by (simp add: executeJob_def Let_def moveToDLQ_def)
       ((rule exI conjI refl | simp)+)?
next
  case (Rejected msg)
  with assms(2) show ?thesis
    by (simp add: executeJob_def executeJob_catch_def Let_def moveToDLQ_def)
       ((rule exI conjI refl | simp)+)?
qed

lemma load_save_jobs: "map_get (jobs (load (save s))) k = map_get (jobs s) k"
  by (simp add: load_def save_def map_get_object_entries)

lemma load_save_dlq: "map_get (dlq (load (save s))) k = map_get (dlq s) k"
  by (simp add: load_def save_def map_get_object_entries)

lemma executions_reach_dead:
  assumes "getJob k (load st) = Some r" and "job_id r = k" and "k \<noteq> []"
      and "max_retries r = attempts r + length runs" and "runs \<noteq> []"
      and "Resolved True \<notin> snd ` set runs"
      and "\<forall>i. i + 1 < length runs \<longrightarrow>
             valid_time (fst (runs ! i))
             \<and> valid_time (fst (runs ! i) + 1000 * b ^ (attempts r + i + 1))"
  shows "\<exists>d. map_get (dlq (executions (Whole b) gen runs k st)) k = Some d
             \<and> map_get (dlq (load (executions (Whole b) gen runs k st))) k = Some d
             \<and> attempts d = max_retries r \<and> state d = ''dead'' \<and> error d \<noteq> None
             \<and> job_id d = k
             \<and> getJob k (executions (Whole b) gen runs k st) = None
             \<and> getJob k (load (executions (Whole b) gen runs k st)) = None"
  using assms
proof (induction runs arbitrary: st r)
  case Nil
  then show ?case by simp
next
  case (Cons run rest)
  let ?j = "fromJSON (fst run) gen r"
  from Cons.prems have nz: "job_id r \<noteq> []" "max_retries r \<noteq> 0" by auto
  note ff = fromJSON_fields [OF nz, of "fst run" gen]
  from Cons.prems(6) have out: "snd run \<noteq> Resolved True"
    by (metis image_eqI list.set_intros(1))
  have step: "executions (Whole b) gen (run # rest) k st
        = executions (Whole b) gen rest k
            (snd (executeJob (Whole b) (fst run) (snd run) ?j (load st)))"
    using Cons.prems(1) by simp
  show ?case
  proof (cases rest)
    case Nil
    with Cons.prems(4) ff have "max_retries ?j \<le> attempts ?j + 1" by simp
    from executeJob_dead [OF out this, of "Whole b" "fst run" "load st"] obtain d
      where d: "executeJob (Whole b) (fst run) (snd run) ?j (load st)
               = (None, save ((load st)\<lparr> dlq := map_set (job_id ?j) d (dlq (load st)),
                            jobs := map_delete (job_id ?j) (jobs (load st)) \<rparr>))"
        "job_id d = job_id ?j" "attempts d = attempts ?j + 1" "state d = ''dead''" "error d \<noteq> None"
      by blast
    have "map_get (dlq (executions (Whole b) gen (run # rest) k st)) k = Some d"
      using step Nil d(1) ff(1) Cons.prems(2) by (simp add: save_def map_get_map_set)
    moreover have "map_get (dlq (load (executions (Whole b) gen (run # rest) k st))) k = Some d"
      using step Nil d(1) ff(1) Cons.prems(2) by (simp add: load_save_dlq map_get_map_set)
    moreover have "getJob k (executions (Whole b) gen (run # rest) k st) = None"
      using step Nil d(1) ff(1) Cons.prems(2) by (simp add: getJob_def save_def map_get_map_delete)
    moreover have "getJob k (load (executions (Whole b) gen (run # rest) k st)) = None"
      using step Nil d(1) ff(1) Cons.prems(2) by (simp add: getJob_def load_save_jobs map_get_map_delete)
    moreover have "attempts d = max_retries r" "job_id d = k"
      using d(2,3) ff Cons.prems(2,4) Nil by simp_all
    ultimately show ?thesis using d(4,5) by blast
  next
    case (Cons run' rest')
    with Cons.prems(4) ff have lt: "attempts ?j + 1 < max_retries ?j" by simp
    from Cons.prems(1) ff(1) Cons.prems(2) have has: "map_has (jobs (load st)) (job_id ?j)"
      by (simp add: map_has_get getJob_def)
    from Cons.prems(7) Cons have "valid_time (fst ((run # rest) ! 0))
        \<and> valid_time (fst ((run # rest) ! 0) + 1000 * b ^ (attempts r + 0 + 1))"
      by (metis add_0 length_Cons less_add_same_cancel2 list.size(4) zero_less_Suc add.commute Suc_eq_plus1 Suc_less_eq)
    with ff(2) have ok: "valid_time (fst run)" "valid_time (fst run + 1000 * b ^ (attempts ?j + 1))"
      by simp_all
    from executeJob_retry [OF out lt has ok] obtain j'
      where j': "executeJob (Whole b) (fst run) (snd run) ?j (load st)
               = (None, save ((load st)\<lparr> jobs := map_set (job_id ?j) j' (jobs (load st)) \<rparr>))"
        "job_id j' = job_id ?j" "attempts j' = attempts ?j + 1" "max_retries j' = max_retries ?j"
      by blast
    let ?st = "snd (executeJob (Whole b) (fst run) (snd run) ?j (load st))"
    have 1: "getJob k (load ?st) = Some j'"
      using j'(1) ff(1) Cons.prems(2) by (simp add: getJob_def load_save_jobs map_get_map_set)
    have 2: "job_id j' = k" using j'(2) ff(1) Cons.prems(2) by simp
    have 4: "max_retries j' = attempts j' + length rest"
      using j'(3,4) ff Cons.prems(4) by simp
    have 5: "rest \<noteq> []" using Cons by simp
    have 6: "Resolved True \<notin> snd ` set rest" using Cons.prems(6) by auto
    have 7: "\<forall>i. i + 1 < length rest \<longrightarrow>
             valid_time (fst (rest ! i))
             \<and> valid_time (fst (rest ! i) + 1000 * b ^ (attempts j' + i + 1))"
    proof (intro allI impI)
      fix i assume "i + 1 < length rest"
      then have "Suc i + 1 < length (run # rest)" by simp
      with Cons.prems(7) have "valid_time (fst ((run # rest) ! Suc i))
          \<and> valid_time (fst ((run # rest) ! Suc i) + 1000 * b ^ (attempts r + Suc i + 1))"
        by blast
      then show "valid_time (fst (rest ! i))
          \<and> valid_time (fst (rest ! i) + 1000 * b ^ (attempts j' + i + 1))"
        using j'(3) ff(2) by simp
    qed
    from Cons.IH [OF 1 2 Cons.prems(3) 4 5 6 7] j'(4) ff(3) step show ?thesis
      by simp
  qed
qed

text \<open>
  C6, as the specification states it, fails. For \<open>m = 0\<close>: after no failed execution a
  job is in the active table and not in the dead-letter table, whether its record carries
  0 retries or it was enqueued with 0 retries. For \<open>m = 3\<close> and a backoff base of
  \<open>10\<^sup>1\<^sup>3\<close>: the first retry instant is past the last valid date, the failure handler
  counts a second attempt and throws again, nothing is saved, and the job stays in the
  active table as processing with no attempts recorded, after one failure and after
  three.
\<close>

theorem no_failure_not_dead:
  "max_retries (job_J\<lparr> max_retries := 0 \<rparr>) = 0
   \<and> (case executions (Whole 2) ''job-0-g'' [] ''J'' (addJob (job_J\<lparr> max_retries := 0 \<rparr>) fresh_store) of
        st \<Rightarrow> getJob ''J'' st = Some (job_J\<lparr> max_retries := 0 \<rparr>) \<and> map_get (dlq st) ''J'' = None)
   \<and> d_max_retries zero_retries = Some 0
   \<and> (case executions (Whole 2) ''job-0-g'' [] ''job1''
              (snd (processJobData 100 ''job-100-k3x'' zero_retries fresh_store)) of
        st \<Rightarrow> map (\<lambda>p. (fst p, state (snd p), attempts (snd p))) (jobs st) = [(''job1'', ''pending'', 0)]
              \<and> dlq st = [])
   \<and> (case processNextJob 2000 2500 ''job-2000-q'' (Whole 10000000000000) (Resolved False) []
              (snd (processJobData 100 ''job-100-k3x'' three_retries fresh_store)) of
        (thrown, env, st) \<Rightarrow>
          thrown = Some RangeError
          \<and> map (\<lambda>p. (fst p, state (snd p), attempts (snd p), max_retries (snd p))) (jobs st)
             = [(''job1'', ''processing'', 0, 3)]
          \<and> dlq st = []
          \<and> (case executions (Whole 10000000000000) ''job-0-g''
                     [(2500, Resolved False), (9000, Resolved False), (20000, Resolved False)] ''job1'' st of
               st' \<Rightarrow> map (\<lambda>p. (fst p, state (snd p), attempts (snd p))) (jobs st')
                        = [(''job1'', ''processing'', 0)]
                      \<and> dlq st' = []))"
  by code_simp

text \<open>
  C6, amended. For a job in the active table with no attempts yet and \<open>m \<ge> 1\<close> retries,
  and a whole backoff base with which every retry instant that is scheduled on the way
  is a valid date, after \<open>m\<close> consecutive executions none of which succeeds the job is in
  the dead-letter table, in memory and in the file, with \<open>m\<close> attempts, state dead and
  its error set, and it is absent from the active table, in memory and in the file.
\<close>

theorem dead_after_max_failures:
  assumes "getJob k (load st) = Some r" and "job_id r = k" and "k \<noteq> []"
      and "attempts r = 0" and "max_retries r = m" and "1 \<le> m"
      and "length runs = m" and "Resolved True \<notin> snd ` set runs"
      and "\<forall>i. i + 1 < m \<longrightarrow>
             valid_time (fst (runs ! i)) \<and> valid_time (fst (runs ! i) + 1000 * b ^ (i + 1))"
  shows "\<exists>d. map_get (dlq (executions (Whole b) gen runs k st)) k = Some d
             \<and> map_get (dlq (load (executions (Whole b) gen runs k st))) k = Some d
             \<and> attempts d = m \<and> state d = ''dead'' \<and> error d \<noteq> None
             \<and> getJob k (executions (Whole b) gen runs k st) = None
             \<and> getJob k (load (executions (Whole b) gen runs k st)) = None"
proof -
  from assms have "max_retries r = attempts r + length runs" "runs \<noteq> []"
    by auto
  moreover from assms(4,7,9) have "\<forall>i. i + 1 < length runs \<longrightarrow>
             valid_time (fst (runs ! i))
             \<and> valid_time (fst (runs ! i) + 1000 * b ^ (attempts r + i + 1))"
    by simp
  ultimately show ?thesis
    using executions_reach_dead [OF assms(1-3) _ _ assms(8), of b gen] assms(5)
    by blast
qed

theorem dead_after_max_failures_witness:
  "getJob ''job1'' (load (snd (processJobData 100 ''job-100-k3x'' two_retries fresh_store)))
     = Some (Job_new 100 ''job-100-k3x'' two_retries)
   \<and> max_retries (Job_new 100 ''job-100-k3x'' two_retries) = 2
   \<and> valid_time 2500 \<and> valid_time (2500 + 1000 * 2 ^ 1)
   \<and> (\<exists>d. map_get (dlq (executions (Whole 2) ''job-0-g''
                          [(2500, Resolved False), (9000, Rejected ''spawn EACCES'')]
                          ''job1'' (snd (processJobData 100 ''job-100-k3x'' two_retries fresh_store))))
               ''job1'' = Some d
            \<and> attempts d = 2 \<and> state d = ''dead'' \<and> error d \<noteq> None)
   \<and> getJob ''job1'' (executions (Whole 2) ''job-0-g''
                        [(2500, Resolved False), (9000, Rejected ''spawn EACCES'')]
                        ''job1'' (snd (processJobData 100 ''job-100-k3x'' two_retries fresh_store))) = None"
proof -
  let ?st = "snd (processJobData 100 ''job-100-k3x'' two_retries fresh_store)"
  let ?r = "Job_new 100 ''job-100-k3x'' two_retries"
  let ?runs = "[(2500, Resolved False), (9000, Rejected ''spawn EACCES'')]"
  have present: "getJob ''job1'' (load ?st) = Some ?r"
    by code_simp
  have id: "job_id ?r = ''job1''"
    by code_simp
  have fresh: "attempts ?r = 0"
    by code_simp
  have two: "max_retries ?r = 2"
    by code_simp
  have failing: "Resolved True \<notin> snd ` set ?runs"
    by simp
  have named: "''job1'' \<noteq> []"
    by simp
  have positive: "(1::nat) \<le> 2"
    by simp
  have twice: "length ?runs = 2"
    by simp
  have first: "valid_time 2500 \<and> valid_time (2500 + 1000 * 2 ^ 1)"
    by (simp add: valid_time_def)
  have dates: "\<forall>i. i + 1 < (2::nat) \<longrightarrow>
             valid_time (fst (?runs ! i)) \<and> valid_time (fst (?runs ! i) + 1000 * 2 ^ (i + 1))"
    using first by (auto simp: less_Suc_eq)
  from dead_after_max_failures
         [OF present id named fresh two positive twice failing dates, of "''job-0-g''"]
  obtain d where "map_get (dlq (executions (Whole 2) ''job-0-g'' ?runs ''job1'' ?st)) ''job1'' = Some d"
    "attempts d = 2" "state d = ''dead''" "error d \<noteq> None"
    "getJob ''job1'' (executions (Whole 2) ''job-0-g'' ?runs ''job1'' ?st) = None"
    by blast
  with present two first show ?thesis
    by blast
qed

section \<open>The two tables stay apart\<close>

lemma keyed_map_set: "keyed t \<Longrightarrow> job_id v = k \<Longrightarrow> keyed (map_set k v t)"
  by (auto simp: keyed_def map_set_def list_all_iff)

lemma keyed_map_delete: "keyed t \<Longrightarrow> keyed (map_delete k t)"
  by (auto simp: keyed_def map_delete_def list_all_iff)

lemma keyed_object_entries: "keyed (object_entries t) = keyed t"
  by (simp add: keyed_def list_all_iff set_object_entries)

lemma apart_object_entries: "apart (object_entries a) (object_entries d) = apart a d"
  by (simp add: apart_def keys_object_entries keyed_object_entries)

lemma keyed_get: "keyed t \<Longrightarrow> map_get t k = Some j \<Longrightarrow> job_id j = k"
  by (auto simp: keyed_def map_get_def list_all_iff dest!: map_of_SomeD)

lemma apart_set_present:
  "apart a d \<Longrightarrow> map_has a k \<Longrightarrow> job_id v = k \<Longrightarrow> apart (map_set k v a) d"
  by (auto simp: apart_def keys_map_set keyed_map_set map_has_def)

lemma apart_set_new:
  "apart a d \<Longrightarrow> \<not> map_has d k \<Longrightarrow> job_id v = k \<Longrightarrow> apart (map_set k v a) d"
  by (auto simp: apart_def keys_map_set keyed_map_set map_has_def)

lemma apart_move:
  "apart a d \<Longrightarrow> job_id v = k \<Longrightarrow> apart (map_delete k a) (map_set k v d)"
  by (auto simp: apart_def keys_map_set keys_map_delete keyed_map_set keyed_map_delete)

lemma apart_move_back:
  "apart a d \<Longrightarrow> job_id v = k \<Longrightarrow> apart (map_set k v a) (map_delete k d)"
  by (auto simp: apart_def keys_map_set keys_map_delete keyed_map_set keyed_map_delete)

lemma apart_delete: "apart a d \<Longrightarrow> apart (map_delete k a) d"
  by (auto simp: apart_def keys_map_delete keyed_map_delete)

lemma store_inv_load: "store_inv st \<Longrightarrow> store_inv (load st)"
  by (auto simp: store_inv_def load_def files_apart_def apart_object_entries split: option.splits)

lemma store_inv_save: "apart (jobs s) (dlq s) \<Longrightarrow> store_inv (save s)"
  by (simp add: store_inv_def save_def files_apart_def apart_object_entries)

lemma store_inv_acquireLock: "store_inv st \<Longrightarrow> store_inv (snd (acquireLock st))"
  by (simp add: store_inv_def acquireLock_def Let_def files_apart_def split: option.splits)

lemma store_inv_releaseLock: "store_inv st \<Longrightarrow> store_inv (releaseLock st)"
  by (auto simp: store_inv_def releaseLock_def files_apart_def split: option.splits)

lemma store_inv_yield:
  assumes "store_inv st" and "list_all harmless env"
  shows "store_inv (snd (yield env st)) \<and> list_all harmless (fst (yield env st))"
  using assms by (auto simp: yield_def store_inv_def harmless_def split: list.splits)

lemma store_inv_acquireLockWithRetry:
  assumes "store_inv st" and "list_all harmless env"
  shows "store_inv (snd (snd (acquireLockWithRetry n env st)))
         \<and> list_all harmless (fst (snd (acquireLockWithRetry n env st)))"
  using assms
proof (induction n arbitrary: env st)
  case 0
  then show ?case by simp
next
  case (Suc n)
  obtain ok st1 where a: "acquireLock st = (ok, st1)" by (cases "acquireLock st")
  with store_inv_acquireLock [OF Suc.prems(1)] have inv1: "store_inv st1" by simp
  show ?case
  proof (cases ok)
    case True
    with a inv1 Suc.prems(2) show ?thesis by simp
  next
    case False
    obtain env1 st2 where s: "sleep env st1 = (env1, st2)" by (cases "sleep env st1")
    with store_inv_yield [OF inv1 Suc.prems(2)] have "store_inv st2" "list_all harmless env1"
      by (simp_all add: sleep_def)
    from Suc.IH [OF this] a s False show ?thesis
      by simp
  qed
qed

lemma store_inv_claim:
  assumes "store_inv s" and "getJob k s = Some cur"
  shows "store_inv (releaseLock (save (s\<lparr> jobs :=
           map_set (job_id (cur\<lparr> state := x, updated_at := t \<rparr>)) (cur\<lparr> state := x, updated_at := t \<rparr>) (jobs s) \<rparr>)))"
proof -
  from assms have ap: "apart (jobs s) (dlq s)" and id: "job_id cur = k"
    by (auto simp: store_inv_def apart_def getJob_def dest: keyed_get)
  from assms(2) id have "map_has (jobs s) (job_id cur)"
    by (simp add: map_has_get getJob_def)
  with ap have "apart (map_set (job_id cur) (cur\<lparr> state := x, updated_at := t \<rparr>) (jobs s)) (dlq s)"
    by (simp add: apart_set_present)
  then show ?thesis
    by (simp add: store_inv_releaseLock store_inv_save)
qed

lemma store_inv_tryCandidates:
  assumes "store_inv st" and "list_all harmless env"
  shows "store_inv (snd (snd (tryCandidates now cands env st)))
         \<and> list_all harmless (fst (snd (tryCandidates now cands env st)))"
  using assms
proof (induction cands arbitrary: env st)
  case Nil
  then show ?case by simp
next
  case (Cons job rest)
  obtain ok env1 st1 where a: "acquireLockWithRetry 3 env st = (ok, env1, st1)"
    by (cases "acquireLockWithRetry 3 env st") auto
  with store_inv_acquireLockWithRetry [OF Cons.prems, of 3]
  have inv1: "store_inv st1" and ok1: "list_all harmless env1" by simp_all
  show ?case
  proof (cases ok)
    case False
    with a Cons.IH [OF inv1 ok1] show ?thesis by simp
  next
    case True
    obtain env2 st2 where y: "yield env1 st1 = (env2, st2)" by (cases "yield env1 st1")
    with store_inv_yield [OF inv1 ok1] have "store_inv st2" and ok2: "list_all harmless env2"
      by simp_all
    then have inv3: "store_inv (load st2)" by (simp add: store_inv_load)
    show ?thesis
    proof (cases "getJob (job_id job) (load st2)")
      case None
      with a y True Cons.IH [OF inv3 ok2] show ?thesis by simp
    next
      case (Some cur)
      show ?thesis
      proof (cases "state cur = ''pending''")
        case False
        with Some a y True Cons.IH [OF inv3 ok2] show ?thesis by simp
      next
        case pending: True
        from store_inv_claim [OF inv3 Some] ok2 Some a y True pending show ?thesis
          by (simp add: Let_def)
      qed
    qed
  qed
qed

lemma store_inv_pollRounds:
  assumes "store_inv st" and "list_all harmless env"
  shows "store_inv (snd (snd (pollRounds now n env st)))"
  using assms
proof (induction n arbitrary: env st)
  case 0
  then show ?case by simp
next
  case (Suc n)
  obtain env1 st0 where y: "yield env st = (env1, st0)" by (cases "yield env st")
  with store_inv_yield [OF Suc.prems] have "store_inv st0" and ok1: "list_all harmless env1"
    by simp_all
  then have inv1: "store_inv (load st0)" by (simp add: store_inv_load)
  let ?pending = "sort_key created_at (getJobsByState ''pending'' (load st0))"
  obtain found env2 st2 where t: "tryCandidates now ?pending env1 (load st0) = (found, env2, st2)"
    by (cases "tryCandidates now ?pending env1 (load st0)") auto
  with store_inv_tryCandidates [OF inv1 ok1, of now ?pending]
  have inv2: "store_inv st2" and ok2: "list_all harmless env2" by simp_all
  obtain env3 st3 where s: "sleep env2 st2 = (env3, st3)" by (cases "sleep env2 st2")
  with store_inv_yield [OF inv2 ok2] have inv3: "store_inv st3" and ok3: "list_all harmless env3"
    by (simp_all add: sleep_def)
  from y t s inv2 Suc.IH [OF inv2 ok2] Suc.IH [OF inv3 ok3] show ?case
    by (cases found) (simp_all add: Let_def)
qed

lemma store_inv_apart: "store_inv st \<Longrightarrow> apart (jobs st) (dlq st)"
  by (simp add: store_inv_def)

lemma store_inv_updateJob: "store_inv st \<Longrightarrow> store_inv (snd (updateJob j st))"
  using store_inv_load [of st] store_inv_apart [of "load st"]
  by (simp add: updateJob_def Let_def store_inv_save apart_set_present)

lemma store_inv_moveToDLQ: "store_inv st \<Longrightarrow> store_inv (moveToDLQ now j st)"
  by (simp add: moveToDLQ_def Let_def store_inv_save apart_move store_inv_apart)

lemma store_inv_retryFromDLQ: "store_inv st \<Longrightarrow> store_inv (snd (retryFromDLQ now jobId st))"
proof (cases "map_get (dlq st) jobId")
  case None
  assume "store_inv st"
  with None show ?thesis by (simp add: retryFromDLQ_def)
next
  case (Some j0)
  assume inv: "store_inv st"
  then have "job_id j0 = jobId" using Some
    by (auto simp: store_inv_def apart_def dest: keyed_get)
  with inv Some show ?thesis
    by (simp add: retryFromDLQ_def Let_def store_inv_save apart_move_back store_inv_apart)
qed

lemma store_inv_deleteJob: "store_inv st \<Longrightarrow> store_inv (snd (deleteJob k st))"
  by (simp add: deleteJob_def store_inv_save apart_delete store_inv_apart)

lemma store_inv_addJob: "store_inv st \<Longrightarrow> \<not> map_has (dlq st) (job_id j) \<Longrightarrow> store_inv (addJob j st)"
  by (simp add: addJob_def store_inv_save apart_set_new store_inv_apart)

lemma store_inv_executeJob_catch:
  "store_inv st \<Longrightarrow> store_inv (snd (executeJob_catch b now msg j st))"
  by (simp add: executeJob_catch_def Let_def store_inv_updateJob store_inv_moveToDLQ
      split: sum.splits)

lemma store_inv_executeJob: "store_inv st \<Longrightarrow> store_inv (snd (executeJob b now out j st))"
  by (simp add: executeJob_def Let_def store_inv_updateJob store_inv_moveToDLQ
      store_inv_executeJob_catch split: outcome.splits sum.splits)

text \<open>
  C4, as the specification states it, fails for Enqueue: a job enqueued under the id of a
  job in the dead-letter table is added to the active table, and the id is then in both.
\<close>

theorem enqueue_dead_id_in_both:
  "store_inv one_dead
   \<and> (case processJobData 9500 ''job-9500-w'' same_id one_dead of
        (result, st) \<Rightarrow>
          result = Inr (Job_new 9500 ''job-9500-w'' same_id)
          \<and> st = addJob (Job_new 9500 ''job-9500-w'' same_id) one_dead
          \<and> keys (jobs st) = [''x'']
          \<and> keys (dlq st) = [''x'']
          \<and> \<not> store_inv st)"
  by code_simp

text \<open>
  C4, amended. From a store whose tables are apart, in memory and in the files, no id is
  in both tables, and they are apart again after \<^verbatim>\<open>getNextPendingJob\<close> (while other
  processes write harmlessly), \<^verbatim>\<open>updateJob\<close>, \<^verbatim>\<open>executeJob\<close> with any outcome
  (also when it throws),
  \<^verbatim>\<open>moveToDLQ\<close>, \<^verbatim>\<open>retryFromDLQ\<close> and \<^verbatim>\<open>deleteJob\<close>, and after
  \<^verbatim>\<open>addJob\<close> when the id of the job added is not in the dead-letter table.
\<close>

theorem operations_keep_tables_apart:
  assumes "store_inv st"
  shows "(\<not> map_has (dlq st) (job_id j) \<longrightarrow> store_inv (addJob j st))
         \<and> (list_all harmless env \<longrightarrow> store_inv (snd (snd (getNextPendingJob now env st))))
         \<and> store_inv (snd (updateJob j st))
         \<and> store_inv (snd (executeJob backoffBase now out j st))
         \<and> store_inv (moveToDLQ now j st)
         \<and> store_inv (snd (retryFromDLQ now jobId st))
         \<and> store_inv (snd (deleteJob jobId st))
         \<and> set (keys (jobs st)) \<inter> set (keys (dlq st)) = {}"
  using assms
  by (simp add: store_inv_addJob store_inv_pollRounds getNextPendingJob_def store_inv_updateJob
      store_inv_executeJob store_inv_moveToDLQ store_inv_retryFromDLQ store_inv_deleteJob)
     (simp add: store_inv_def apart_def)

theorem operations_keep_tables_apart_witness:
  "store_inv one_pending
   \<and> \<not> map_has (dlq one_pending) (job_id job_a)
   \<and> list_all harmless [untouched, other_claims_J]
   \<and> store_inv (addJob job_a one_pending)
   \<and> store_inv (snd (snd (getNextPendingJob 10 [untouched, other_claims_J] one_pending)))
   \<and> store_inv (snd (updateJob job_a one_pending))
   \<and> store_inv (snd (executeJob (Whole 2) 10 (Resolved False) job_a one_pending))
   \<and> store_inv (moveToDLQ 10 job_a one_pending)
   \<and> store_inv (snd (retryFromDLQ 10 ''J'' one_pending))
   \<and> store_inv (snd (deleteJob ''J'' one_pending))"
proof -
  have inv: "store_inv one_pending"
    by code_simp
  have new: "\<not> map_has (dlq one_pending) (job_id job_a)"
    by code_simp
  have written: "apart [(''J'', job_J\<lparr> state := ''processing'', updated_at := 5 \<rparr>)] []"
    by code_simp
  have env: "list_all harmless [untouched, other_claims_J]"
    using written by (simp add: harmless_def untouched_def other_claims_J_def files_apart_def)
  from operations_keep_tables_apart
         [OF inv, of job_a "[untouched, other_claims_J]" 10 "Whole 2" "Resolved False" "''J''"]
    inv new env
  show ?thesis
    by simp
qed

end
